theory Spec2Isabelle
  imports Main
begin

section \<open>The LangChain sample notebook for Azure AI Search\<close>

text \<open>
  The repository is one Jupyter notebook,
  \<^verbatim>\<open>azure-search-vector-python-langchain-sample.ipynb\<close>. Its code cells install the
  packages, read the configuration from the environment, build an embeddings client and
  a vector store, load three PDF files into the store and run three queries. The cells
  are modelled in the order of the notebook, as one run from top to bottom that stops at
  the first exception, as the notebook's \<open>Run All\<close> does. The libraries the notebook
  calls (LangChain, the Azure SDK) are not part of the repository: each call into them is
  a parameter of the model, and what they do inside (the requests they send, whether they
  send one again) is not fixed by it.
\<close>

subsection \<open>Python values\<close>

text \<open>
  The values the notebook handles: \<open>None\<close>, strings, integers, floats (a score is only
  ever printed; a finite double is kept as mantissa and exponent), dictionaries, and
  objects that a library built, kept as the call that built them (callee, positional
  arguments, keyword arguments). \<open>PAttr obj name\<close> is the bound method \<open>obj.name\<close>.
\<close>

datatype pyval =
    PNone
  | PStr string
  | PInt int
  | PFloat int int
  | PDict "(string \<times> pyval) list"
  | PCall string "pyval list" "(string \<times> pyval) list"
  | PAttr pyval string

datatype error =
    KeyError string
  | AttributeError string
  | TypeError
  | Raised string

text \<open>Truth value testing, as \<open>if v:\<close>, \<open>not v\<close> and \<open>v or w\<close> use it.\<close>

fun truthy :: "pyval \<Rightarrow> bool" where
  "truthy PNone = False"
| "truthy (PStr s) = (s \<noteq> [])"
| "truthy (PInt i) = (i \<noteq> 0)"
| "truthy (PFloat m e) = (m \<noteq> 0)"
| "truthy (PDict d) = (d \<noteq> [])"
| "truthy (PCall f args kwargs) = True"
| "truthy (PAttr v a) = True"

text \<open>\<open>d[k]\<close> on a dictionary raises \<open>KeyError\<close>; on anything else the notebook meets, \<open>TypeError\<close>.\<close>

definition dict_subscript :: "(string \<times> pyval) list \<Rightarrow> string \<Rightarrow> error + pyval" where
  "dict_subscript d k = (case map_of d k of None \<Rightarrow> Inl (KeyError k) | Some v \<Rightarrow> Inr v)"

fun py_subscript :: "pyval \<Rightarrow> string \<Rightarrow> error + pyval" where
  "py_subscript (PDict d) k = dict_subscript d k"
| "py_subscript v k = Inl TypeError"

text \<open>\<open>v.get(k)\<close>: \<open>None\<close> for a missing key; only a dictionary has the method.\<close>

fun py_get :: "pyval \<Rightarrow> string \<Rightarrow> error + pyval" where
  "py_get (PDict d) k = Inr (case map_of d k of None \<Rightarrow> PNone | Some v \<Rightarrow> v)"
| "py_get v k = Inl (AttributeError ''get'')"

definition thenE :: "error + 'a \<Rightarrow> ('a \<Rightarrow> error + 'b) \<Rightarrow> error + 'b" where
  "thenE r f = (case r of Inl e \<Rightarrow> Inl e | Inr a \<Rightarrow> f a)"

subsection \<open>Cell 5: the configuration\<close>

type_synonym environ = "string \<rightharpoonup> string"

text \<open>
  \<open>load_dotenv(override=True)\<close> adds the variables of the \<^verbatim>\<open>.env\<close> file to the process
  environment, replacing those already set. \<open>os.environ[k]\<close> raises \<open>KeyError\<close> for a
  variable that is not set.
\<close>

definition load_dotenv :: "environ \<Rightarrow> environ \<Rightarrow> environ" where
  "load_dotenv dotenv env = env ++ dotenv"

definition environ_get :: "environ \<Rightarrow> string \<Rightarrow> error + string" where
  "environ_get environ k = (case environ k of None \<Rightarrow> Inl (KeyError k) | Some v \<Rightarrow> Inr v)"

definition DefaultAzureCredential :: pyval where
  "DefaultAzureCredential = PCall ''DefaultAzureCredential'' [] []"

record config =
  endpoint :: string
  key_credential :: pyval
  index_name :: string
  azure_openai_endpoint :: string
  azure_openai_key :: pyval
  azure_openai_embedding_deployment :: string
  azure_openai_api_version :: string
  credential :: pyval

text \<open>
  \<open>os.environ[K] if len(os.environ[K]) > 0 else None\<close>: the condition reads the variable
  first, and the value is read again when the condition holds.
\<close>

definition environ_get_or_None :: "environ \<Rightarrow> string \<Rightarrow> error + pyval" where
  "environ_get_or_None environ k =
     thenE (environ_get environ k) (\<lambda>v.
       if length v > 0 then thenE (environ_get environ k) (\<lambda>v'. Inr (PStr v'))
       else Inr PNone)"

definition cell5 :: "environ \<Rightarrow> environ \<Rightarrow> error + config" where
  "cell5 dotenv env =
    (let environ = load_dotenv dotenv env in
     thenE (environ_get environ ''AZURE_SEARCH_SERVICE_ENDPOINT'') (\<lambda>endpoint.
     thenE (environ_get_or_None environ ''AZURE_SEARCH_ADMIN_KEY'') (\<lambda>key_credential.
     thenE (environ_get environ ''AZURE_SEARCH_INDEX'') (\<lambda>index_name.
     thenE (environ_get environ ''AZURE_OPENAI_ENDPOINT'') (\<lambda>azure_openai_endpoint.
     thenE (environ_get_or_None environ ''AZURE_OPENAI_KEY'') (\<lambda>azure_openai_key.
     thenE (environ_get environ ''AZURE_OPENAI_EMBEDDING_DEPLOYMENT'') (\<lambda>azure_openai_embedding_deployment.
     thenE (environ_get environ ''AZURE_OPENAI_API_VERSION'') (\<lambda>azure_openai_api_version.
     Inr \<lparr> endpoint = endpoint,
           key_credential = key_credential,
           index_name = index_name,
           azure_openai_endpoint = azure_openai_endpoint,
           azure_openai_key = azure_openai_key,
           azure_openai_embedding_deployment = azure_openai_embedding_deployment,
           azure_openai_api_version = azure_openai_api_version,
           credential = (if truthy key_credential then key_credential
                         else DefaultAzureCredential) \<rparr>))))))))"

subsection \<open>Cell 7: the embeddings client\<close>

definition get_bearer_token_provider :: "pyval \<Rightarrow> string \<Rightarrow> pyval" where
  "get_bearer_token_provider cred scope = PCall ''get_bearer_token_provider'' [cred, PStr scope] []"

definition AzureOpenAIEmbeddings :: "(string \<times> pyval) list \<Rightarrow> pyval" where
  "AzureOpenAIEmbeddings kwargs = PCall ''AzureOpenAIEmbeddings'' [] kwargs"

definition cell7 :: "config \<Rightarrow> pyval" where
  "cell7 cfg =
    (let openai_credential = DefaultAzureCredential;
         token_provider = get_bearer_token_provider openai_credential
                            ''https://cognitiveservices.azure.com/.default''
     in AzureOpenAIEmbeddings
          [(''azure_deployment'', PStr (azure_openai_embedding_deployment cfg)),
           (''openai_api_version'', PStr (azure_openai_api_version cfg)),
           (''azure_endpoint'', PStr (azure_openai_endpoint cfg)),
           (''api_key'', azure_openai_key cfg),
           (''azure_ad_token_provider'',
              if \<not> truthy (azure_openai_key cfg) then token_provider else PNone)])"

text \<open>The keyword arguments an object was built with.\<close>

fun kwargs_of :: "pyval \<Rightarrow> (string \<times> pyval) list" where
  "kwargs_of (PCall f args kwargs) = kwargs"
| "kwargs_of v = []"

subsection \<open>Calls into the libraries, and the state of a run\<close>

text \<open>A LangChain \<open>Document\<close>: the text of a chunk and its metadata dictionary.\<close>

record document =
  page_content :: string
  metadata :: "(string \<times> pyval) list"

text \<open>
  The calls of the notebook that leave the process or read a file: the shell command of
  cell 3, \<open>load_dotenv\<close>, building the vector store,
  \<open>loader.load_and_split(splitter)\<close> (the path of the loader and the splitter),
  \<open>add_documents\<close>, \<open>similarity_search\<close> (query, \<open>k\<close>, \<open>search_type\<close>) and
  \<open>semantic_hybrid_search_with_score\<close> (query, \<open>k\<close>).
\<close>

datatype call =
    Shell string
  | Load_dotenv
  | AzureSearch "(string \<times> pyval) list"
  | Load_and_split string pyval
  | Add_documents "document list"
  | Similarity_search string int string
  | Semantic_hybrid_search_with_score string int

datatype retval =
    RNone
  | RDocs "document list"
  | RIds "string list"
  | RScored "(document \<times> pyval) list"

type_synonym event = "call \<times> (error + retval)"

text \<open>
  A printed line is the sequence of its pieces: literal text, and values formatted into
  it (the formatting itself is Python's \<open>str\<close> and is not modelled).
\<close>

datatype frag = Lit string | Fmt pyval

text \<open>
  What the libraries and the services behind them answer is a parameter: each call takes
  the state \<open>'w\<close> of everything outside the notebook and returns a value or raises, with
  the new outside state. A shell command returns the lines it wrote; the notebook goes on
  whatever its exit status.
\<close>

record 'w libs =
  shell :: "string \<Rightarrow> 'w \<Rightarrow> frag list list \<times> 'w"
  azure_search :: "(string \<times> pyval) list \<Rightarrow> 'w \<Rightarrow> (error + unit) \<times> 'w"
  load_and_split :: "string \<Rightarrow> pyval \<Rightarrow> 'w \<Rightarrow> (error + document list) \<times> 'w"
  add_documents :: "document list \<Rightarrow> 'w \<Rightarrow> (error + string list) \<times> 'w"
  similarity_search :: "string \<Rightarrow> int \<Rightarrow> string \<Rightarrow> 'w \<Rightarrow> (error + document list) \<times> 'w"
  semantic_hybrid_search_with_score ::
    "string \<Rightarrow> int \<Rightarrow> 'w \<Rightarrow> (error + (document \<times> pyval) list) \<times> 'w"

text \<open>
  The state of a run: the outside world, the calls made so far with their outcomes, and
  the lines printed so far.
\<close>

record 'w state =
  world :: 'w
  calls :: "event list"
  stdout :: "frag list list"

type_synonym ('w, 'a) cellm = "'w state \<Rightarrow> (error + 'a) \<times> 'w state"

definition returnS :: "'a \<Rightarrow> ('w, 'a) cellm" where
  "returnS a s = (Inr a, s)"

text \<open>An exception leaves the rest of the cell, and of the run, unexecuted.\<close>

definition bindS :: "('w, 'a) cellm \<Rightarrow> ('a \<Rightarrow> ('w, 'b) cellm) \<Rightarrow> ('w, 'b) cellm" where
  "bindS m f s = (case m s of (Inl e, s') \<Rightarrow> (Inl e, s') | (Inr a, s') \<Rightarrow> f a s')"

definition liftE :: "error + 'a \<Rightarrow> ('w, 'a) cellm" where
  "liftE r s = (r, s)"

definition print :: "frag list \<Rightarrow> ('w, unit) cellm" where
  "print line s = (Inr (), s\<lparr>stdout := stdout s @ [line]\<rparr>)"

definition call_lib ::
  "call \<Rightarrow> ('a \<Rightarrow> retval) \<Rightarrow> ('w \<Rightarrow> (error + 'a) \<times> 'w) \<Rightarrow> ('w, 'a) cellm" where
  "call_lib c ret f s =
     (case f (world s) of
        (r, w') \<Rightarrow> (r, s\<lparr>world := w', calls := calls s @ [(c, map_sum id ret r)]\<rparr>))"

subsection \<open>Cell 9: the vector store\<close>

definition cell9 :: "'w libs \<Rightarrow> config \<Rightarrow> pyval \<Rightarrow> ('w, unit) cellm" where
  "cell9 L cfg embeddings =
    (let kwargs = [(''azure_search_endpoint'', PStr (endpoint cfg)),
                   (''azure_search_key'', key_credential cfg),
                   (''index_name'', PStr (index_name cfg)),
                   (''embedding_function'', PAttr embeddings ''embed_query''),
                   (''semantic_configuration_name'', PStr ''default'')]
     in call_lib (AzureSearch kwargs) (\<lambda>_. RNone) (azure_search L kwargs))"

subsection \<open>Cell 10: loading the files\<close>

text \<open>\<open>os.path.join\<close> as \<open>posixpath\<close> has it.\<close>

definition path_step :: "string \<Rightarrow> string \<Rightarrow> string" where
  "path_step path b =
     (if take 1 b = ''/'' then b
      else if path = [] \<or> last path = CHR ''/'' then path @ b
      else path @ ''/'' @ b)"

definition os_path_join :: "string \<Rightarrow> string list \<Rightarrow> string" where
  "os_path_join a p = foldl path_step a p"

definition directory :: string where
  "directory = os_path_join ''..'' [''..'', ''..'', ''..'', ''data'', ''benefitdocs'']"

definition files :: "string list" where
  "files = [''Benefit_Options.pdf'', ''Northwind_Health_Plus_Benefits_Details.pdf'',
            ''Northwind_Standard_Benefits_Details.pdf'']"

definition RecursiveCharacterTextSplitter :: "(string \<times> pyval) list \<Rightarrow> pyval" where
  "RecursiveCharacterTextSplitter kwargs = PCall ''RecursiveCharacterTextSplitter'' [] kwargs"

definition splitter :: pyval where
  "splitter = RecursiveCharacterTextSplitter [(''chunk_size'', PInt 1000), (''chunk_overlap'', PInt 0)]"

text \<open>The \<open>for file in files\<close> loop, with \<open>total_chunks\<close> as the accumulator.\<close>

primrec index_files :: "'w libs \<Rightarrow> string list \<Rightarrow> int \<Rightarrow> ('w, int) cellm" where
  "index_files L [] total_chunks = returnS total_chunks"
| "index_files L (file # rest) total_chunks =
     (let path = os_path_join directory [file] in
      bindS (call_lib (Load_and_split path splitter) RDocs (load_and_split L path splitter))
        (\<lambda>file_chunks.
      bindS (call_lib (Add_documents file_chunks) RIds (add_documents L file_chunks))
        (\<lambda>results.
      bindS (print [Lit ''Indexed '', Fmt (PStr file)])
        (\<lambda>_. index_files L rest (total_chunks + int (length results))))))"

definition cell10 :: "'w libs \<Rightarrow> ('w, int) cellm" where
  "cell10 L =
     bindS (index_files L files 0) (\<lambda>total_chunks.
     bindS (print [Lit ''Indexed '', Fmt (PInt total_chunks), Lit '' chunks''])
       (\<lambda>_. returnS total_chunks))"

subsection \<open>Cells 12, 14 and 16: the queries\<close>

definition query :: string where
  "query = ''What is included in my Northwind Health Plus plan that is not in standard?''"

definition rule_line :: "frag list" where
  "rule_line = [Lit (replicate 80 CHR ''-'')]"

primrec print_docs :: "document list \<Rightarrow> ('w, unit) cellm" where
  "print_docs [] = returnS ()"
| "print_docs (doc # docs) =
     bindS (print rule_line) (\<lambda>_.
     bindS (liftE (dict_subscript (metadata doc) ''source'')) (\<lambda>source.
     bindS (print [Lit ''Source: '', Fmt source]) (\<lambda>_.
     bindS (print [Lit ''Chunk Content: '', Fmt (PStr (page_content doc))]) (\<lambda>_.
     print_docs docs))))"

text \<open>Cells 12 and 14 differ in the \<open>search_type\<close> only. The value is \<open>docs\<close> after \<open>docs[:3]\<close>.\<close>

definition search_cell :: "'w libs \<Rightarrow> string \<Rightarrow> ('w, document list) cellm" where
  "search_cell L search_type =
     bindS (call_lib (Similarity_search query 50 search_type) RDocs
              (similarity_search L query 50 search_type)) (\<lambda>docs.
     bindS (returnS (take 3 docs)) (\<lambda>docs.
     bindS (print_docs docs) (\<lambda>_. returnS docs)))"

definition cell12 :: "'w libs \<Rightarrow> ('w, document list) cellm" where
  "cell12 L = search_cell L ''similarity''"

definition cell14 :: "'w libs \<Rightarrow> ('w, document list) cellm" where
  "cell14 L = search_cell L ''hybrid''"

text \<open>The answer or caption of a result: its highlights if it has any, else its text.\<close>

definition print_highlight :: "string \<Rightarrow> pyval \<Rightarrow> ('w, unit) cellm" where
  "print_highlight label d =
     bindS (liftE (py_get d ''highlights'')) (\<lambda>h.
     if truthy h then
       bindS (liftE (py_subscript d ''highlights'')) (\<lambda>v. print [Lit label, Fmt v])
     else
       bindS (liftE (py_subscript d ''text'')) (\<lambda>v. print [Lit label, Fmt v]))"

primrec print_docs_and_scores :: "(document \<times> pyval) list \<Rightarrow> ('w, unit) cellm" where
  "print_docs_and_scores [] = returnS ()"
| "print_docs_and_scores (ds # rest) =
     (let doc = fst ds; score = snd ds in
      bindS (print rule_line) (\<lambda>_.
      bindS (liftE (dict_subscript (metadata doc) ''answers'')) (\<lambda>answers.
      bindS (if truthy answers then
               bindS (print_highlight ''Semantic Answer: '' answers) (\<lambda>_.
               print [Lit ''Semantic Answer Score: '', Fmt score])
             else returnS ()) (\<lambda>_.
      bindS (print [Lit ''Content:'', Lit '' '', Fmt (PStr (page_content doc))]) (\<lambda>_.
      bindS (liftE (dict_subscript (metadata doc) ''captions'')) (\<lambda>captions.
      bindS (print [Lit ''Score: '', Fmt score]) (\<lambda>_.
      bindS (if truthy captions then print_highlight ''Caption: '' captions
             else print [Lit ''Caption not available'']) (\<lambda>_.
      print_docs_and_scores rest))))))))"

definition cell16 :: "'w libs \<Rightarrow> ('w, (document \<times> pyval) list) cellm" where
  "cell16 L =
     bindS (call_lib (Semantic_hybrid_search_with_score query 50) RScored
              (semantic_hybrid_search_with_score L query 50)) (\<lambda>docs_and_scores.
     bindS (returnS (take 3 docs_and_scores)) (\<lambda>docs_and_scores.
     bindS (print_docs_and_scores docs_and_scores) (\<lambda>_. returnS docs_and_scores)))"

subsection \<open>The run\<close>

definition init :: "'w \<Rightarrow> 'w state" where
  "init w = \<lparr> world = w, calls = [], stdout = [] \<rparr>"

text \<open>
  Cell 3, \<^verbatim>\<open>! pip install -r ... --quiet\<close>: the command runs outside the process, what it
  wrote is shown, and the cell raises nothing.
\<close>

definition pip_install :: string where
  "pip_install = ''pip install -r azure-search-vector-python-langchain-sample-requirements.txt --quiet''"

definition print_lines :: "frag list list \<Rightarrow> ('w, unit) cellm" where
  "print_lines ls s = (Inr (), s\<lparr>stdout := stdout s @ ls\<rparr>)"

definition cell3 :: "'w libs \<Rightarrow> ('w, unit) cellm" where
  "cell3 L =
     bindS (call_lib (Shell pip_install) (\<lambda>_. RNone)
              (\<lambda>w. (Inr (fst (shell L pip_install w)), snd (shell L pip_install w))))
       print_lines"

text \<open>
  The \<open>load_dotenv(override=True)\<close> of cell 5 reads the \<^verbatim>\<open>.env\<close> file; what the file
  holds is the parameter \<open>dotenv\<close> of the run.
\<close>

definition read_dotenv :: "('w, unit) cellm" where
  "read_dotenv = call_lib Load_dotenv (\<lambda>_. RNone) (\<lambda>w. (Inr (), w))"

text \<open>The code cells from top to bottom.\<close>

definition cells_after_config :: "'w libs \<Rightarrow> config \<Rightarrow> ('w, unit) cellm" where
  "cells_after_config L cfg =
     bindS (cell9 L cfg (cell7 cfg)) (\<lambda>_.
     bindS (cell10 L) (\<lambda>_.
     bindS (cell12 L) (\<lambda>_.
     bindS (cell14 L) (\<lambda>_.
     bindS (cell16 L) (\<lambda>_. returnS ())))))"

definition run :: "'w libs \<Rightarrow> environ \<Rightarrow> environ \<Rightarrow> 'w \<Rightarrow> (error + unit) \<times> 'w state" where
  "run L dotenv env w =
     bindS (cell3 L) (\<lambda>_.
     bindS read_dotenv (\<lambda>_.
     bindS (liftE (cell5 dotenv env)) (\<lambda>cfg.
     cells_after_config L cfg))) (init w)"

subsection \<open>The credential of the search client\<close>

text \<open>
  Modelled from the spec: the choice of credential inside the vector store, which is code
  of the LangChain library and not of the notebook. The spec says of the admin key that
  the client "falls back to an ambient identity credential if empty", and the notebook
  hands an empty key over as \<open>None\<close>; so the client built with keyword arguments
  \<open>kwargs\<close> authenticates with the key when \<open>azure_search_key\<close> is a string, and with
  the ambient identity credential when it is \<open>None\<close> or not given.
\<close>

definition search_client_credential :: "(string \<times> pyval) list \<Rightarrow> pyval" where
  "search_client_credential kwargs =
     (case map_of kwargs ''azure_search_key'' of
        Some (PStr key) \<Rightarrow> PCall ''AzureKeyCredential'' [PStr key] []
      | _ \<Rightarrow> DefaultAzureCredential)"

subsection \<open>What the properties below are stated with\<close>

text \<open>The variables cell 5 reads, in the order it reads them, and those the notebook cannot do without.\<close>

definition variables :: "string list" where
  "variables = [''AZURE_SEARCH_SERVICE_ENDPOINT'', ''AZURE_SEARCH_ADMIN_KEY'', ''AZURE_SEARCH_INDEX'',
     ''AZURE_OPENAI_ENDPOINT'', ''AZURE_OPENAI_KEY'', ''AZURE_OPENAI_EMBEDDING_DEPLOYMENT'',
     ''AZURE_OPENAI_API_VERSION'']"

definition required_variables :: "string list" where
  "required_variables = [''AZURE_SEARCH_SERVICE_ENDPOINT'', ''AZURE_SEARCH_INDEX'',
     ''AZURE_OPENAI_ENDPOINT'', ''AZURE_OPENAI_EMBEDDING_DEPLOYMENT'', ''AZURE_OPENAI_API_VERSION'']"

text \<open>
  The calls of a loop over the files in which every call returned: for each file the
  chunks that were loaded, then the identifiers that \<open>add_documents\<close> returned for them.
\<close>

fun file_events :: "string list \<Rightarrow> document list list \<Rightarrow> string list list \<Rightarrow> event list" where
  "file_events (file # rest) (file_chunks # cs) (results # rs) =
     (Load_and_split (os_path_join directory [file]) splitter, Inr (RDocs file_chunks))
     # (Add_documents file_chunks, Inr (RIds results))
     # file_events rest cs rs"
| "file_events fs cs rs = []"




text \<open>A computation that makes no call.\<close>

definition silent :: "('w, 'a) cellm \<Rightarrow> bool" where
  "silent m = (\<forall>s. calls (snd (m s)) = calls s)"

subsection \<open>Sample environments and sample libraries\<close>

text \<open>An environment with every variable set and both keys empty, and what cell 5 makes of it.\<close>

definition env_full :: environ where
  "env_full = map_of
     [(''AZURE_SEARCH_SERVICE_ENDPOINT'', ''https://s.search.windows.net''),
      (''AZURE_SEARCH_ADMIN_KEY'', []),
      (''AZURE_SEARCH_INDEX'', ''idx''),
      (''AZURE_OPENAI_ENDPOINT'', ''https://o.openai.azure.com''),
      (''AZURE_OPENAI_KEY'', []),
      (''AZURE_OPENAI_EMBEDDING_DEPLOYMENT'', ''emb''),
      (''AZURE_OPENAI_API_VERSION'', ''2024-02-01'')]"

definition cfg_full :: config where
  "cfg_full =
     \<lparr> endpoint = ''https://s.search.windows.net'', key_credential = PNone, index_name = ''idx'',
       azure_openai_endpoint = ''https://o.openai.azure.com'', azure_openai_key = PNone,
       azure_openai_embedding_deployment = ''emb'', azure_openai_api_version = ''2024-02-01'',
       credential = PCall ''DefaultAzureCredential'' [] [] \<rparr>"

text \<open>The same with both keys given, with the search endpoint blank, and with a variable unset.\<close>

definition env_keys :: environ where
  "env_keys = env_full(''AZURE_SEARCH_ADMIN_KEY'' \<mapsto> ''admin'', ''AZURE_OPENAI_KEY'' \<mapsto> ''secret'')"

definition env_blank_endpoint :: environ where
  "env_blank_endpoint = env_full(''AZURE_SEARCH_SERVICE_ENDPOINT'' \<mapsto> [])"

definition env_no_index :: environ where
  "env_no_index = env_full(''AZURE_SEARCH_INDEX'' := None)"

definition env_no_admin_key :: environ where
  "env_no_admin_key = env_full(''AZURE_SEARCH_ADMIN_KEY'' := None)"

definition demo_doc :: "string \<Rightarrow> string \<Rightarrow> document" where
  "demo_doc src txt = \<lparr> page_content = txt, metadata = [(''source'', PStr src)] \<rparr>"

definition demo_docs :: "document list" where
  "demo_docs = [demo_doc ''a.pdf'' ''one'', demo_doc ''b.pdf'' ''two'',
                demo_doc ''a.pdf'' ''three'', demo_doc ''c.pdf'' ''four'']"

definition demo_scored :: "(document \<times> pyval) list" where
  "demo_scored =
     [(\<lparr> page_content = ''one'',
          metadata = [(''answers'', PNone),
                      (''captions'', PDict [(''text'', PStr ''one''), (''highlights'', PStr ''<em>one</em>'')])] \<rparr>,
       PFloat 3 (-7)),
      (\<lparr> page_content = ''two'',
          metadata = [(''answers'', PDict [(''text'', PStr ''two''), (''highlights'', PStr [])]),
                      (''captions'', PNone)] \<rparr>,
       PFloat 5 (-8)),
      (\<lparr> page_content = ''three'', metadata = [(''answers'', PNone), (''captions'', PNone)] \<rparr>,
       PFloat 1 (-8)),
      (\<lparr> page_content = ''four'', metadata = [(''answers'', PNone), (''captions'', PNone)] \<rparr>,
       PFloat 1 (-9))]"

text \<open>
  Libraries whose outside state counts the calls made into LangChain. The shell command
  writes nothing, every file has two chunks, every chunk is written, and every search
  has four results to return.
\<close>

definition L_demo :: "nat libs" where
  "L_demo =
     \<lparr> shell = (\<lambda>cmd w. ([], w)),
       azure_search = (\<lambda>kwargs w. (Inr (), Suc w)),
       load_and_split = (\<lambda>path sp w. (Inr [demo_doc path ''first'', demo_doc path ''second''], Suc w)),
       add_documents = (\<lambda>docs w. (Inr (map (\<lambda>d. ''id'') docs), Suc w)),
       similarity_search = (\<lambda>q k t w. (Inr (take (nat k) demo_docs), Suc w)),
       semantic_hybrid_search_with_score = (\<lambda>q k w. (Inr (take (nat k) demo_scored), Suc w)) \<rparr>"

text \<open>The same, except that the write of the second file raises.\<close>

definition L_fail :: "nat libs" where
  "L_fail = L_demo \<lparr> add_documents :=
      (\<lambda>docs w. if w = 4 then (Inl (Raised ''HttpResponseError''), Suc w)
                 else (Inr (map (\<lambda>d. ''id'') docs), Suc w)) \<rparr>"

text \<open>
  Libraries whose outside state is the log of the requests sent to the two services,
  each with whether it succeeded. Here \<open>add_documents\<close> sends the embedding request of a
  file's chunks, which fails, sends it again, which succeeds, then sends the write
  request, and returns the identifiers: a library that retries a failed request by
  itself.
\<close>

definition L_retry :: "(string \<times> bool) list libs" where
  "L_retry =
     \<lparr> shell = (\<lambda>cmd w. ([], w)),
       azure_search = (\<lambda>kwargs w. (Inr (), w)),
       load_and_split = (\<lambda>path sp w. (Inr [demo_doc path ''first'', demo_doc path ''second''], w)),
       add_documents = (\<lambda>docs w.
          (Inr (map (\<lambda>d. ''id'') docs),
           w @ [(''embeddings'', False), (''embeddings'', True), (''index'', True)])),
       similarity_search = (\<lambda>q k t w. (Inr [], w @ [(''embeddings'', True), (''search'', True)])),
       semantic_hybrid_search_with_score =
         (\<lambda>q k w. (Inr [], w @ [(''embeddings'', True), (''search'', True)])) \<rparr>"

section \<open>Lemmas\<close>

subsection \<open>The configuration\<close>

lemma thenE_simps [simp]: "thenE (Inl e) f = Inl e" "thenE (Inr a) f = f a"
  by (simp_all add: thenE_def)

lemma environ_get_Inl: "environ_get environ k = Inl e \<Longrightarrow> e = KeyError k \<and> environ k = None"
  by (cases "environ k") (simp_all add: environ_get_def)

lemma environ_get_or_None_Inl: "environ_get_or_None environ k = Inl e \<Longrightarrow> e = KeyError k \<and> environ k = None"
  by (cases "environ k") (simp_all add: environ_get_or_None_def environ_get_def split: if_splits)

lemma thenE_InlE:
  assumes "thenE r f = Inl e"
  obtains "r = Inl e" | a where "r = Inr a" "f a = Inl e"
  using assms by (cases r) simp_all

lemma cell5_Inl: "cell5 dotenv env = Inl e \<Longrightarrow> \<exists>k. e = KeyError k \<and> load_dotenv dotenv env k = None"
  unfolding cell5_def Let_def
  by (elim thenE_InlE) (auto dest!: environ_get_Inl environ_get_or_None_Inl)

lemma environ_get_Inr: "environ_get environ k = Inr v \<Longrightarrow> environ k = Some v"
  by (cases "environ k") (simp_all add: environ_get_def)

lemma environ_get_or_None_Inr:
  "environ_get_or_None environ k = Inr p \<Longrightarrow> \<exists>v. environ k = Some v \<and> p = (if v = [] then PNone else PStr v)"
  by (cases "environ k") (auto simp add: environ_get_or_None_def environ_get_def)

lemma thenE_InrE:
  assumes "thenE r f = Inr b"
  obtains a where "r = Inr a" "f a = Inr b"
  using assms by (cases r) simp_all


lemma cell5_Inr:
  assumes "cell5 dotenv env = Inr cfg"
  shows "\<exists>ep ak ix oe ok dep ver. 
     load_dotenv dotenv env ''AZURE_SEARCH_SERVICE_ENDPOINT'' = Some ep \<and>
     load_dotenv dotenv env ''AZURE_SEARCH_ADMIN_KEY'' = Some ak \<and>
     load_dotenv dotenv env ''AZURE_SEARCH_INDEX'' = Some ix \<and>
     load_dotenv dotenv env ''AZURE_OPENAI_ENDPOINT'' = Some oe \<and>
     load_dotenv dotenv env ''AZURE_OPENAI_KEY'' = Some ok \<and>
     load_dotenv dotenv env ''AZURE_OPENAI_EMBEDDING_DEPLOYMENT'' = Some dep \<and>
     load_dotenv dotenv env ''AZURE_OPENAI_API_VERSION'' = Some ver \<and>
     cfg = \<lparr> endpoint = ep, key_credential = (if ak = [] then PNone else PStr ak),
             index_name = ix, azure_openai_endpoint = oe,
             azure_openai_key = (if ok = [] then PNone else PStr ok),
             azure_openai_embedding_deployment = dep, azure_openai_api_version = ver,
             credential = (if ak = [] then DefaultAzureCredential else PStr ak) \<rparr>"
proof -
  let ?E = "load_dotenv dotenv env"
  from assms obtain ep kc ix oe okc dep ver where
    g: "environ_get ?E ''AZURE_SEARCH_SERVICE_ENDPOINT'' = Inr ep"
       "environ_get_or_None ?E ''AZURE_SEARCH_ADMIN_KEY'' = Inr kc"
       "environ_get ?E ''AZURE_SEARCH_INDEX'' = Inr ix"
       "environ_get ?E ''AZURE_OPENAI_ENDPOINT'' = Inr oe"
       "environ_get_or_None ?E ''AZURE_OPENAI_KEY'' = Inr okc"
       "environ_get ?E ''AZURE_OPENAI_EMBEDDING_DEPLOYMENT'' = Inr dep"
       "environ_get ?E ''AZURE_OPENAI_API_VERSION'' = Inr ver"
    and c: "cfg = \<lparr> endpoint = ep, key_credential = kc, index_name = ix,
             azure_openai_endpoint = oe, azure_openai_key = okc,
             azure_openai_embedding_deployment = dep, azure_openai_api_version = ver,
             credential = (if truthy kc then kc else DefaultAzureCredential) \<rparr>"
    unfolding cell5_def Let_def by (elim thenE_InrE) simp
  from environ_get_or_None_Inr[OF g(2)] obtain ak where
    ak: "?E ''AZURE_SEARCH_ADMIN_KEY'' = Some ak" "kc = (if ak = [] then PNone else PStr ak)" by blast
  from environ_get_or_None_Inr[OF g(5)] obtain ok where
    ok: "?E ''AZURE_OPENAI_KEY'' = Some ok" "okc = (if ok = [] then PNone else PStr ok)" by blast
  have t: "(if truthy kc then kc else DefaultAzureCredential) = (if ak = [] then DefaultAzureCredential else PStr ak)"
    using ak(2) by simp
  show ?thesis
    using environ_get_Inr[OF g(1)] environ_get_Inr[OF g(3)] environ_get_Inr[OF g(4)]
      environ_get_Inr[OF g(6)] environ_get_Inr[OF g(7)] ak ok c t
    by simp
qed

lemma cell5_Inl_var: "cell5 dotenv env = Inl e \<Longrightarrow> \<exists>k \<in> set variables. e = KeyError k \<and> load_dotenv dotenv env k = None"
  unfolding cell5_def Let_def variables_def
  by (elim thenE_InlE) (auto dest!: environ_get_Inl environ_get_or_None_Inl)

lemma cell5_total:
  assumes "\<forall>k \<in> set variables. load_dotenv dotenv env k \<noteq> None"
  shows "\<exists>cfg. cell5 dotenv env = Inr cfg"
proof (cases "cell5 dotenv env")
  case (Inl e)
  from cell5_Inl_var[OF this] assms show ?thesis by blast
next
  case (Inr cfg) then show ?thesis by blast
qed

lemma cell5_unset:
  assumes "k \<in> set variables" "load_dotenv dotenv env k = None"
  shows "\<exists>k'. load_dotenv dotenv env k' = None \<and> cell5 dotenv env = Inl (KeyError k')"
proof (cases "cell5 dotenv env")
  case (Inl e)
  from cell5_Inl[OF this] Inl show ?thesis by blast
next
  case (Inr cfg)
  from cell5_Inr[OF this] assms show ?thesis by (auto simp: variables_def)
qed


subsection \<open>A call that raises is the last\<close>























subsection \<open>What the cells leave in the trace\<close>

lemma bindS_Inr:
  assumes "bindS m f s = (Inr b, s')"
  obtains a s1 where "m s = (Inr a, s1)" "f a s1 = (Inr b, s')"
  using assms by (auto simp: bindS_def split: prod.splits sum.splits)

lemma call_lib_Inr:
  assumes "call_lib c ret f s = (Inr a, s')"
  shows "calls s' = calls s @ [(c, Inr (ret a))] \<and> stdout s' = stdout s"
  using assms by (auto simp: call_lib_def split: prod.splits)

lemma print_Inr:
  assumes "print l s = (r, s')"
  shows "calls s' = calls s \<and> stdout s' = stdout s @ [l] \<and> r = Inr ()"
  using assms by (auto simp: print_def)

lemma index_files_Inr:
  "index_files L fs t s = (Inr t', s') \<Longrightarrow>
   \<exists>cs rs. length cs = length fs \<and> length rs = length fs \<and>
     calls s' = calls s @ file_events fs cs rs \<and>
     t' = t + sum_list (map (\<lambda>r. int (length r)) rs)"
proof (induction fs arbitrary: t s)
  case Nil
  then show ?case by (simp add: returnS_def)
next
  case (Cons f fs)
  from Cons.prems obtain chunks s1 results s2 u s3 where
    a: "call_lib (Load_and_split (os_path_join directory [f]) splitter) RDocs
          (load_and_split L (os_path_join directory [f]) splitter) s = (Inr chunks, s1)"
    and b: "call_lib (Add_documents chunks) RIds (add_documents L chunks) s1 = (Inr results, s2)"
    and c: "print [Lit ''Indexed '', Fmt (PStr f)] s2 = (Inr u, s3)"
    and d: "index_files L fs (t + int (length results)) s3 = (Inr t', s')"
    unfolding index_files.simps Let_def by (elim bindS_Inr)
  from Cons.IH[OF d] obtain cs rs where ih: "length cs = length fs" "length rs = length fs"
    "calls s' = calls s3 @ file_events fs cs rs"
    "t' = t + int (length results) + sum_list (map (\<lambda>r. int (length r)) rs)" by blast
  have "calls s3 = calls s @ [(Load_and_split (os_path_join directory [f]) splitter, Inr (RDocs chunks)),
      (Add_documents chunks, Inr (RIds results))]"
    using call_lib_Inr[OF a] call_lib_Inr[OF b] print_Inr[OF c] by simp
  with ih have "length (chunks # cs) = length (f # fs) \<and> length (results # rs) = length (f # fs) \<and>
     calls s' = calls s @ file_events (f # fs) (chunks # cs) (results # rs) \<and>
     t' = t + sum_list (map (\<lambda>r. int (length r)) (results # rs))" by simp
  then show ?case by blast
qed

lemma silent_returnS: "silent (returnS a)"
  by (simp add: silent_def returnS_def)

lemma silent_liftE: "silent (liftE r)"
  by (simp add: silent_def liftE_def)

lemma silent_print: "silent (print l)"
  by (simp add: silent_def print_def)

lemma silent_bindS:
  assumes "silent m" and "\<And>a. silent (f a)"
  shows "silent (bindS m f)"
proof -
  have "calls (snd (bindS m f s)) = calls s" for s
  proof (cases "m s")
    case (Pair r s1)
    from assms(1) have "calls (snd (m s)) = calls s" by (simp add: silent_def)
    with Pair have c: "calls s1 = calls s" by simp
    show ?thesis
    proof (cases r)
      case (Inl e) with Pair c show ?thesis by (simp add: bindS_def)
    next
      case (Inr a)
      with assms(2)[of a] Pair c show ?thesis by (simp add: bindS_def silent_def)
    qed
  qed
  then show ?thesis by (simp add: silent_def)
qed

lemma silent_if: "silent m1 \<Longrightarrow> silent m2 \<Longrightarrow> silent (if b then m1 else m2)"
  by simp

lemmas silent_intros = silent_bindS silent_returnS silent_liftE silent_print silent_if

lemma silent_print_docs: "silent (print_docs ds)"
  by (induction ds) (simp_all add: silent_intros)

lemma silent_print_highlight: "silent (print_highlight l d)"
  by (simp add: print_highlight_def silent_intros)

lemma silent_print_docs_and_scores: "silent (print_docs_and_scores ds)"
  by (induction ds) (simp_all add: Let_def silent_intros silent_print_highlight)

lemma silentD:
  assumes "silent m" "m s = (r, s')"
  shows "calls s' = calls s"
proof -
  from assms(1) have "calls (snd (m s)) = calls s" by (simp add: silent_def)
  with assms(2) show ?thesis by simp
qed

lemma bindS_returnS: "bindS (returnS a) f = f a"
  by (rule ext) (simp add: bindS_def returnS_def)

lemma bindS_then_returnS:
  assumes "bindS m (\<lambda>_. returnS d) s = (Inr x, s')"
  obtains u where "m s = (Inr u, s')" "x = d"
proof -
  from assms obtain u s1 where m: "m s = (Inr u, s1)" and r: "returnS d s1 = (Inr x, s')"
    by (rule bindS_Inr)
  from r have "x = d" "s1 = s'" by (simp_all add: returnS_def)
  with m that show ?thesis by blast
qed

lemma search_cell_Inr:
  assumes "search_cell L t s = (Inr docs, s')"
  shows "\<exists>all. calls s' = calls s @ [(Similarity_search query 50 t, Inr (RDocs all))] \<and> docs = take 3 all"
proof -
  from assms obtain all s1 where
    a: "call_lib (Similarity_search query 50 t) RDocs (similarity_search L query 50 t) s = (Inr all, s1)"
    and r: "bindS (print_docs (take 3 all)) (\<lambda>_. returnS (take 3 all)) s1 = (Inr docs, s')"
    unfolding search_cell_def bindS_returnS by (rule bindS_Inr)
  from r obtain u where b: "print_docs (take 3 all) s1 = (Inr u, s')" and c: "docs = take 3 all"
    by (rule bindS_then_returnS)
  from silentD[OF silent_print_docs b] have "calls s' = calls s1" .
  with call_lib_Inr[OF a] c show ?thesis by simp
qed

lemma cell16_Inr:
  assumes "cell16 L s = (Inr ds, s')"
  shows "\<exists>all. calls s' = calls s @ [(Semantic_hybrid_search_with_score query 50, Inr (RScored all))] \<and> ds = take 3 all"
proof -
  from assms obtain all s1 where
    a: "call_lib (Semantic_hybrid_search_with_score query 50) RScored (semantic_hybrid_search_with_score L query 50) s = (Inr all, s1)"
    and r: "bindS (print_docs_and_scores (take 3 all)) (\<lambda>_. returnS (take 3 all)) s1 = (Inr ds, s')"
    unfolding cell16_def bindS_returnS by (rule bindS_Inr)
  from r obtain u where b: "print_docs_and_scores (take 3 all) s1 = (Inr u, s')" and c: "ds = take 3 all"
    by (rule bindS_then_returnS)
  from silentD[OF silent_print_docs_and_scores b] have "calls s' = calls s1" .
  with call_lib_Inr[OF a] c show ?thesis by simp
qed

lemma cell10_Inr:
  assumes "cell10 L s = (Inr total_chunks, s')"
  shows "\<exists>cs rs. length cs = length files \<and> length rs = length files \<and>
     calls s' = calls s @ file_events files cs rs \<and>
     total_chunks = sum_list (map (\<lambda>r. int (length r)) rs) \<and>
     last (stdout s') = [Lit ''Indexed '', Fmt (PInt total_chunks), Lit '' chunks'']"
proof -
  from assms obtain t s1 where
    a: "index_files L files 0 s = (Inr t, s1)"
    and r: "bindS (print [Lit ''Indexed '', Fmt (PInt t), Lit '' chunks'']) (\<lambda>_. returnS t) s1 = (Inr total_chunks, s')"
    unfolding cell10_def by (rule bindS_Inr)
  from r obtain u where b: "print [Lit ''Indexed '', Fmt (PInt t), Lit '' chunks''] s1 = (Inr u, s')"
    and c: "total_chunks = t" by (rule bindS_then_returnS)
  from index_files_Inr[OF a] obtain cs rs where ih: "length cs = length files" "length rs = length files"
    "calls s1 = calls s @ file_events files cs rs" "t = 0 + sum_list (map (\<lambda>r. int (length r)) rs)" by blast
  from print_Inr[OF b] have "calls s' = calls s1" "last (stdout s') = [Lit ''Indexed '', Fmt (PInt t), Lit '' chunks'']"
    by simp_all
  with ih c show ?thesis by auto
qed

section \<open>The properties\<close>

lemmas cellm_defs = bindS_def returnS_def liftE_def print_def call_lib_def

lemmas env_defs = env_full_def env_keys_def env_blank_endpoint_def env_no_index_def
  env_no_admin_key_def load_dotenv_def

lemma cell5_env_full: "cell5 Map.empty env_full = Inr cfg_full"
  by (simp add: cell5_def env_defs environ_get_def environ_get_or_None_def cfg_full_def
      DefaultAzureCredential_def)

subsection \<open>Configuration\<close>

lemma run_cell5_Inl:
  assumes "cell5 dotenv env = Inl e"
  shows "run L dotenv env w =
           (Inl e, \<lparr>world = snd (shell L pip_install w),
                     calls = [(Shell pip_install, Inr RNone), (Load_dotenv, Inr RNone)],
                     stdout = fst (shell L pip_install w)\<rparr>)"
  using assms
  by (simp add: run_def cell3_def read_dotenv_def print_lines_def cellm_defs init_def)

text \<open>
  C3, as stated, fails in two ways. At an environment where the search endpoint is set
  to the empty string and every other variable is set, cell 5 raises nothing and binds
  \<open>endpoint\<close> to the empty string: only the two keys are tested for emptiness. And at an
  environment where the index name is not set, the package installation of cell 3, a
  command that reaches the package index, has run before cell 5 raises.
\<close>

theorem blank_required_variable_is_accepted:
  "load_dotenv Map.empty env_blank_endpoint ''AZURE_SEARCH_SERVICE_ENDPOINT'' = Some []
   \<and> cell5 Map.empty env_blank_endpoint = Inr (cfg_full\<lparr>endpoint := []\<rparr>)
   \<and> load_dotenv Map.empty env_no_index ''AZURE_SEARCH_INDEX'' = None
   \<and> map fst (calls (snd (run L_demo Map.empty env_no_index 0))) = [Shell pip_install, Load_dotenv]"
proof -
  have a: "load_dotenv Map.empty env_blank_endpoint ''AZURE_SEARCH_SERVICE_ENDPOINT'' = Some []
   \<and> cell5 Map.empty env_blank_endpoint = Inr (cfg_full\<lparr>endpoint := []\<rparr>)"
    by (simp add: cell5_def env_defs environ_get_def environ_get_or_None_def cfg_full_def
        DefaultAzureCredential_def)
  have b: "load_dotenv Map.empty env_no_index ''AZURE_SEARCH_INDEX'' = None"
    by (simp add: env_defs)
  have "cell5 Map.empty env_no_index = Inl (KeyError ''AZURE_SEARCH_INDEX'')"
    by (simp add: cell5_def env_defs environ_get_def environ_get_or_None_def)
  from run_cell5_Inl[OF this, of L_demo 0]
  have c: "map fst (calls (snd (run L_demo Map.empty env_no_index 0))) = [Shell pip_install, Load_dotenv]"
    by simp
  from a b c show ?thesis by simp
qed

text \<open>
  C3, amended: when a required variable (search endpoint, index name, embedding endpoint,
  embedding deployment name or API version) is not set once the \<^verbatim>\<open>.env\<close> file is
  loaded, the run ends with a \<open>KeyError\<close> that names a variable that is not set, before any
  call to the search or the embedding service: the package installation of cell 3 and
  \<open>load_dotenv\<close> are the only calls that have been made, and nothing but the output of
  the installation has been printed. No default is used. A required variable that is set
  is accepted whatever its value, the empty string included: when all seven variables are
  set, the loader returns and binds each required value as it was read.
\<close>

theorem required_variable_unset_aborts_blank_accepted:
  "(k \<in> set required_variables \<and> load_dotenv dotenv env k = None \<longrightarrow>
      (\<exists>k'. load_dotenv dotenv env k' = None \<and>
         run L dotenv env w =
           (Inl (KeyError k'),
            \<lparr>world = snd (shell L pip_install w),
              calls = [(Shell pip_install, Inr RNone), (Load_dotenv, Inr RNone)],
              stdout = fst (shell L pip_install w)\<rparr>)))
   \<and> ((\<forall>v \<in> set variables. load_dotenv dotenv env v \<noteq> None) \<longrightarrow>
      (\<exists>cfg. cell5 dotenv env = Inr cfg
         \<and> load_dotenv dotenv env ''AZURE_SEARCH_SERVICE_ENDPOINT'' = Some (endpoint cfg)
         \<and> load_dotenv dotenv env ''AZURE_SEARCH_INDEX'' = Some (index_name cfg)
         \<and> load_dotenv dotenv env ''AZURE_OPENAI_ENDPOINT'' = Some (azure_openai_endpoint cfg)
         \<and> load_dotenv dotenv env ''AZURE_OPENAI_EMBEDDING_DEPLOYMENT'' =
             Some (azure_openai_embedding_deployment cfg)
         \<and> load_dotenv dotenv env ''AZURE_OPENAI_API_VERSION'' =
             Some (azure_openai_api_version cfg)))"
proof (intro conjI impI)
  assume a: "k \<in> set required_variables \<and> load_dotenv dotenv env k = None"
  then have "k \<in> set variables"
    by (auto simp: required_variables_def variables_def)
  from cell5_unset[OF this] a obtain k' where
    k': "load_dotenv dotenv env k' = None" "cell5 dotenv env = Inl (KeyError k')" by blast
  from run_cell5_Inl[OF k'(2), of L w] k'(1)
  show "\<exists>k'. load_dotenv dotenv env k' = None \<and>
         run L dotenv env w =
           (Inl (KeyError k'),
            \<lparr>world = snd (shell L pip_install w),
              calls = [(Shell pip_install, Inr RNone), (Load_dotenv, Inr RNone)],
              stdout = fst (shell L pip_install w)\<rparr>)"
    by blast
next
  assume "\<forall>v \<in> set variables. load_dotenv dotenv env v \<noteq> None"
  from cell5_total[OF this] obtain cfg where c: "cell5 dotenv env = Inr cfg" by blast
  from cell5_Inr[OF c] have
    "load_dotenv dotenv env ''AZURE_SEARCH_SERVICE_ENDPOINT'' = Some (endpoint cfg)
         \<and> load_dotenv dotenv env ''AZURE_SEARCH_INDEX'' = Some (index_name cfg)
         \<and> load_dotenv dotenv env ''AZURE_OPENAI_ENDPOINT'' = Some (azure_openai_endpoint cfg)
         \<and> load_dotenv dotenv env ''AZURE_OPENAI_EMBEDDING_DEPLOYMENT'' =
             Some (azure_openai_embedding_deployment cfg)
         \<and> load_dotenv dotenv env ''AZURE_OPENAI_API_VERSION'' =
             Some (azure_openai_api_version cfg)"
    by auto
  with c show "\<exists>cfg. cell5 dotenv env = Inr cfg
         \<and> load_dotenv dotenv env ''AZURE_SEARCH_SERVICE_ENDPOINT'' = Some (endpoint cfg)
         \<and> load_dotenv dotenv env ''AZURE_SEARCH_INDEX'' = Some (index_name cfg)
         \<and> load_dotenv dotenv env ''AZURE_OPENAI_ENDPOINT'' = Some (azure_openai_endpoint cfg)
         \<and> load_dotenv dotenv env ''AZURE_OPENAI_EMBEDDING_DEPLOYMENT'' =
             Some (azure_openai_embedding_deployment cfg)
         \<and> load_dotenv dotenv env ''AZURE_OPENAI_API_VERSION'' =
             Some (azure_openai_api_version cfg)"
    by blast
qed

text \<open>
  With the index name unset the run ends after the installation and \<open>load_dotenv\<close>; with
  every variable set and the search endpoint blank, cell 5 returns and the endpoint is
  the empty string.
\<close>

theorem required_variable_unset_aborts_blank_accepted_witness:
  "''AZURE_SEARCH_INDEX'' \<in> set required_variables
   \<and> load_dotenv Map.empty env_no_index ''AZURE_SEARCH_INDEX'' = None
   \<and> (\<exists>k'. load_dotenv Map.empty env_no_index k' = None \<and>
         run L_demo Map.empty env_no_index 0 =
           (Inl (KeyError k'),
            \<lparr>world = 0, calls = [(Shell pip_install, Inr RNone), (Load_dotenv, Inr RNone)],
              stdout = []\<rparr>))
   \<and> list_all (\<lambda>v. load_dotenv Map.empty env_blank_endpoint v \<noteq> None) variables
   \<and> load_dotenv Map.empty env_blank_endpoint ''AZURE_SEARCH_SERVICE_ENDPOINT'' = Some []
   \<and> (\<exists>cfg. cell5 Map.empty env_blank_endpoint = Inr cfg \<and> endpoint cfg = []
         \<and> index_name cfg = ''idx'')"
proof -
  have h1: "''AZURE_SEARCH_INDEX'' \<in> set required_variables"
    by (simp add: required_variables_def)
  have h2: "load_dotenv Map.empty env_no_index ''AZURE_SEARCH_INDEX'' = None"
    by (simp add: env_defs)
  have sh: "shell L_demo pip_install (0::nat) = ([], 0)"
    by (simp add: L_demo_def)
  from required_variable_unset_aborts_blank_accepted
         [of "''AZURE_SEARCH_INDEX''" Map.empty env_no_index L_demo 0] h1 h2
  have 1: "\<exists>k'. load_dotenv Map.empty env_no_index k' = None \<and>
         run L_demo Map.empty env_no_index 0 =
           (Inl (KeyError k'),
            \<lparr>world = 0, calls = [(Shell pip_install, Inr RNone), (Load_dotenv, Inr RNone)],
              stdout = []\<rparr>)"
    by (simp add: sh)
  have h3: "\<forall>v \<in> set variables. load_dotenv Map.empty env_blank_endpoint v \<noteq> None"
    by (simp add: variables_def env_defs)
  have h4: "load_dotenv Map.empty env_blank_endpoint ''AZURE_SEARCH_SERVICE_ENDPOINT'' = Some []"
    and h5: "load_dotenv Map.empty env_blank_endpoint ''AZURE_SEARCH_INDEX'' = Some ''idx''"
    by (simp_all add: env_defs)
  from required_variable_unset_aborts_blank_accepted
         [of "''AZURE_SEARCH_INDEX''" Map.empty env_blank_endpoint L_demo 0] h3
  obtain cfg where "cell5 Map.empty env_blank_endpoint = Inr cfg"
    "load_dotenv Map.empty env_blank_endpoint ''AZURE_SEARCH_SERVICE_ENDPOINT'' = Some (endpoint cfg)"
    "load_dotenv Map.empty env_blank_endpoint ''AZURE_SEARCH_INDEX'' = Some (index_name cfg)"
    by blast
  with h4 h5 have 2: "\<exists>cfg. cell5 Map.empty env_blank_endpoint = Inr cfg \<and> endpoint cfg = []
         \<and> index_name cfg = ''idx''"
    by auto
  from h3 have 3: "list_all (\<lambda>v. load_dotenv Map.empty env_blank_endpoint v \<noteq> None) variables"
    by (simp add: list_all_iff)
  from h1 h2 1 3 h4 2 show ?thesis by blast
qed

text \<open>
  C10: the two keys are read with \<open>os.environ[...]\<close> like the other variables. When
  either is not set, cell 5 raises a \<open>KeyError\<close> naming a variable that is not set. When
  all seven variables are set, cell 5 returns: an admin key set to the empty string gives
  \<open>key_credential = None\<close> and \<open>credential = DefaultAzureCredential()\<close>, and an embedding key
  set to the empty string gives \<open>azure_openai_key = None\<close>.
\<close>

theorem optional_keys_must_be_set:
  "((load_dotenv dotenv env ''AZURE_SEARCH_ADMIN_KEY'' = None
       \<or> load_dotenv dotenv env ''AZURE_OPENAI_KEY'' = None)
      \<longrightarrow> (\<exists>k'. load_dotenv dotenv env k' = None \<and> cell5 dotenv env = Inl (KeyError k')))
   \<and> ((\<forall>v \<in> set variables. load_dotenv dotenv env v \<noteq> None)
      \<longrightarrow> (\<exists>cfg. cell5 dotenv env = Inr cfg
            \<and> (load_dotenv dotenv env ''AZURE_SEARCH_ADMIN_KEY'' = Some []
                 \<longrightarrow> key_credential cfg = PNone \<and> credential cfg = DefaultAzureCredential)
            \<and> (load_dotenv dotenv env ''AZURE_OPENAI_KEY'' = Some []
                 \<longrightarrow> azure_openai_key cfg = PNone)))"
proof (intro conjI impI)
  assume "load_dotenv dotenv env ''AZURE_SEARCH_ADMIN_KEY'' = None
            \<or> load_dotenv dotenv env ''AZURE_OPENAI_KEY'' = None"
  then obtain k where "k \<in> set variables" "load_dotenv dotenv env k = None"
    by (auto simp: variables_def)
  then show "\<exists>k'. load_dotenv dotenv env k' = None \<and> cell5 dotenv env = Inl (KeyError k')"
    by (rule cell5_unset)
next
  assume "\<forall>v \<in> set variables. load_dotenv dotenv env v \<noteq> None"
  from cell5_total[OF this] obtain cfg where c: "cell5 dotenv env = Inr cfg" by blast
  from cell5_Inr[OF c] have
    "(load_dotenv dotenv env ''AZURE_SEARCH_ADMIN_KEY'' = Some []
        \<longrightarrow> key_credential cfg = PNone \<and> credential cfg = DefaultAzureCredential)
     \<and> (load_dotenv dotenv env ''AZURE_OPENAI_KEY'' = Some [] \<longrightarrow> azure_openai_key cfg = PNone)"
    by auto
  with c show "\<exists>cfg. cell5 dotenv env = Inr cfg
            \<and> (load_dotenv dotenv env ''AZURE_SEARCH_ADMIN_KEY'' = Some []
                 \<longrightarrow> key_credential cfg = PNone \<and> credential cfg = DefaultAzureCredential)
            \<and> (load_dotenv dotenv env ''AZURE_OPENAI_KEY'' = Some []
                 \<longrightarrow> azure_openai_key cfg = PNone)"
    by blast
qed

text \<open>
  With the admin key unset cell 5 raises; with every variable set and both keys empty it
  returns the configuration with both keys \<open>None\<close>.
\<close>

theorem optional_keys_must_be_set_witness:
  "load_dotenv Map.empty env_no_admin_key ''AZURE_SEARCH_ADMIN_KEY'' = None
   \<and> (\<exists>k'. load_dotenv Map.empty env_no_admin_key k' = None
          \<and> cell5 Map.empty env_no_admin_key = Inl (KeyError k'))
   \<and> list_all (\<lambda>v. load_dotenv Map.empty env_full v \<noteq> None) variables
   \<and> load_dotenv Map.empty env_full ''AZURE_SEARCH_ADMIN_KEY'' = Some []
   \<and> load_dotenv Map.empty env_full ''AZURE_OPENAI_KEY'' = Some []
   \<and> (\<exists>cfg. cell5 Map.empty env_full = Inr cfg \<and> key_credential cfg = PNone
          \<and> credential cfg = DefaultAzureCredential \<and> azure_openai_key cfg = PNone)"
proof -
  have a: "load_dotenv Map.empty env_no_admin_key ''AZURE_SEARCH_ADMIN_KEY'' = None"
    by (simp add: env_defs)
  have b: "\<forall>v \<in> set variables. load_dotenv Map.empty env_full v \<noteq> None"
    by (simp add: variables_def env_defs)
  have c: "load_dotenv Map.empty env_full ''AZURE_SEARCH_ADMIN_KEY'' = Some []"
    and d: "load_dotenv Map.empty env_full ''AZURE_OPENAI_KEY'' = Some []"
    by (simp_all add: env_defs)
  from optional_keys_must_be_set[of Map.empty env_no_admin_key] a
  have 1: "\<exists>k'. load_dotenv Map.empty env_no_admin_key k' = None
          \<and> cell5 Map.empty env_no_admin_key = Inl (KeyError k')" by blast
  from optional_keys_must_be_set[of Map.empty env_full] b c d
  have 2: "\<exists>cfg. cell5 Map.empty env_full = Inr cfg \<and> key_credential cfg = PNone
          \<and> credential cfg = DefaultAzureCredential \<and> azure_openai_key cfg = PNone" by blast
  from b have "list_all (\<lambda>v. load_dotenv Map.empty env_full v \<noteq> None) variables"
    by (simp add: list_all_iff)
  with a c d 1 2 show ?thesis by blast
qed

lemma cell9_calls:
  "\<exists>r. calls (snd (cell9 L cfg emb s)) = calls s @
      [(AzureSearch [(''azure_search_endpoint'', PStr (endpoint cfg)),
                     (''azure_search_key'', key_credential cfg),
                     (''index_name'', PStr (index_name cfg)),
                     (''embedding_function'', PAttr emb ''embed_query''),
                     (''semantic_configuration_name'', PStr ''default'')], r)]"
  by (cases "azure_search L
      [(''azure_search_endpoint'', PStr (endpoint cfg)), (''azure_search_key'', key_credential cfg),
       (''index_name'', PStr (index_name cfg)), (''embedding_function'', PAttr emb ''embed_query''),
       (''semantic_configuration_name'', PStr ''default'')] (world s)")
     (simp add: cell9_def Let_def call_lib_def)

text \<open>
  C6: for a configuration that cell 5 returned, cell 9 builds the search client in one
  call. When the admin key is set to the empty string, cell 5 binds \<open>key_credential\<close> to
  \<open>None\<close> (and \<open>credential\<close> to the ambient identity credential), the call carries
  \<open>azure_search_key=None\<close>, and the client authenticates with the ambient identity
  credential and not with a key. When the admin key is not empty, the call carries the
  key and the client authenticates with it. The notebook's part, what it passes as
  \<open>azure_search_key\<close>, is read off cells 5 and 9; the client's choice of credential for
  that argument is \<open>search_client_credential\<close>.
\<close>

theorem search_client_uses_identity_when_key_empty:
  assumes "cell5 dotenv env = Inr cfg"
  shows "\<exists>kwargs r.
      calls (snd (cell9 L cfg (cell7 cfg) s)) = calls s @ [(AzureSearch kwargs, r)]
    \<and> (load_dotenv dotenv env ''AZURE_SEARCH_ADMIN_KEY'' = Some [] \<longrightarrow>
          key_credential cfg = PNone \<and> credential cfg = DefaultAzureCredential
        \<and> map_of kwargs ''azure_search_key'' = Some PNone
        \<and> search_client_credential kwargs = DefaultAzureCredential)
    \<and> (\<forall>key. key \<noteq> [] \<and> load_dotenv dotenv env ''AZURE_SEARCH_ADMIN_KEY'' = Some key \<longrightarrow>
          map_of kwargs ''azure_search_key'' = Some (PStr key)
        \<and> search_client_credential kwargs = PCall ''AzureKeyCredential'' [PStr key] [])"
proof -
  let ?kw = "[(''azure_search_endpoint'', PStr (endpoint cfg)),
              (''azure_search_key'', key_credential cfg),
              (''index_name'', PStr (index_name cfg)),
              (''embedding_function'', PAttr (cell7 cfg) ''embed_query''),
              (''semantic_configuration_name'', PStr ''default'')]"
  from cell9_calls[of L cfg "cell7 cfg" s] obtain r where
    c: "calls (snd (cell9 L cfg (cell7 cfg) s)) = calls s @ [(AzureSearch ?kw, r)]" by blast
  from cell5_Inr[OF assms] obtain ak where
    ak: "load_dotenv dotenv env ''AZURE_SEARCH_ADMIN_KEY'' = Some ak"
    and k: "key_credential cfg = (if ak = [] then PNone else PStr ak)"
    and cr: "credential cfg = (if ak = [] then DefaultAzureCredential else PStr ak)"
    by auto
  have m: "map_of ?kw ''azure_search_key'' = Some (key_credential cfg)" by simp
  have "(load_dotenv dotenv env ''AZURE_SEARCH_ADMIN_KEY'' = Some [] \<longrightarrow>
          key_credential cfg = PNone \<and> credential cfg = DefaultAzureCredential
        \<and> map_of ?kw ''azure_search_key'' = Some PNone
        \<and> search_client_credential ?kw = DefaultAzureCredential)
    \<and> (\<forall>key. key \<noteq> [] \<and> load_dotenv dotenv env ''AZURE_SEARCH_ADMIN_KEY'' = Some key \<longrightarrow>
          map_of ?kw ''azure_search_key'' = Some (PStr key)
        \<and> search_client_credential ?kw = PCall ''AzureKeyCredential'' [PStr key] [])"
  proof (cases "ak = []")
    case True
    with ak k cr show ?thesis by (auto simp: search_client_credential_def)
  next
    case False
    with ak k cr show ?thesis by (auto simp: search_client_credential_def)
  qed
  with c show ?thesis by blast
qed

text \<open>The two cases, at the environment with empty keys and at the one with both keys given.\<close>

theorem search_client_uses_identity_when_key_empty_witness:
  "cell5 Map.empty env_full = Inr cfg_full
   \<and> load_dotenv Map.empty env_full ''AZURE_SEARCH_ADMIN_KEY'' = Some []
   \<and> (\<exists>kwargs r.
        calls (snd (cell9 L_demo cfg_full (cell7 cfg_full) (init 0))) =
          calls (init (0::nat)) @ [(AzureSearch kwargs, r)]
      \<and> key_credential cfg_full = PNone \<and> credential cfg_full = DefaultAzureCredential
      \<and> map_of kwargs ''azure_search_key'' = Some PNone
      \<and> search_client_credential kwargs = DefaultAzureCredential)
   \<and> cell5 Map.empty env_keys =
       Inr (cfg_full\<lparr>key_credential := PStr ''admin'', azure_openai_key := PStr ''secret'',
                      credential := PStr ''admin''\<rparr>)
   \<and> load_dotenv Map.empty env_keys ''AZURE_SEARCH_ADMIN_KEY'' = Some ''admin''
   \<and> (\<exists>kwargs r.
        calls (snd (cell9 L_demo
                 (cfg_full\<lparr>key_credential := PStr ''admin'', azure_openai_key := PStr ''secret'',
                            credential := PStr ''admin''\<rparr>)
                 (cell7 (cfg_full\<lparr>key_credential := PStr ''admin'',
                            azure_openai_key := PStr ''secret'', credential := PStr ''admin''\<rparr>))
                 (init 0))) =
          calls (init (0::nat)) @ [(AzureSearch kwargs, r)]
      \<and> map_of kwargs ''azure_search_key'' = Some (PStr ''admin'')
      \<and> search_client_credential kwargs = PCall ''AzureKeyCredential'' [PStr ''admin''] [])"
proof -
  have a: "load_dotenv Map.empty env_full ''AZURE_SEARCH_ADMIN_KEY'' = Some []"
    by (simp add: env_defs)
  have b: "cell5 Map.empty env_keys =
       Inr (cfg_full\<lparr>key_credential := PStr ''admin'', azure_openai_key := PStr ''secret'',
                      credential := PStr ''admin''\<rparr>)"
    by (simp add: cell5_def env_defs environ_get_def environ_get_or_None_def cfg_full_def)
  have c: "load_dotenv Map.empty env_keys ''AZURE_SEARCH_ADMIN_KEY'' = Some ''admin''"
    by (simp add: env_defs)
  have d: "''admin'' \<noteq> []" by simp
  from search_client_uses_identity_when_key_empty[OF cell5_env_full, of L_demo "init 0"] a
  have 1: "\<exists>kwargs r.
        calls (snd (cell9 L_demo cfg_full (cell7 cfg_full) (init 0))) =
          calls (init (0::nat)) @ [(AzureSearch kwargs, r)]
      \<and> key_credential cfg_full = PNone \<and> credential cfg_full = DefaultAzureCredential
      \<and> map_of kwargs ''azure_search_key'' = Some PNone
      \<and> search_client_credential kwargs = DefaultAzureCredential"
    by blast
  from search_client_uses_identity_when_key_empty[OF b, of L_demo "init 0"] c d
  have 2: "\<exists>kwargs r.
        calls (snd (cell9 L_demo
                 (cfg_full\<lparr>key_credential := PStr ''admin'', azure_openai_key := PStr ''secret'',
                            credential := PStr ''admin''\<rparr>)
                 (cell7 (cfg_full\<lparr>key_credential := PStr ''admin'',
                            azure_openai_key := PStr ''secret'', credential := PStr ''admin''\<rparr>))
                 (init 0))) =
          calls (init (0::nat)) @ [(AzureSearch kwargs, r)]
      \<and> map_of kwargs ''azure_search_key'' = Some (PStr ''admin'')
      \<and> search_client_credential kwargs = PCall ''AzureKeyCredential'' [PStr ''admin''] []"
    by blast
  show ?thesis
    by (rule conjI[OF cell5_env_full conjI[OF a conjI[OF 1 conjI[OF b conjI[OF c 2]]]]])
qed

text \<open>
  C7: for a configuration that cell 5 returned, the embeddings client of cell 7 is built
  with \<open>api_key=None\<close> and the bearer token provider when the embedding key is set to the
  empty string, and with the key and \<open>azure_ad_token_provider=None\<close> when the key is not
  empty. In both cases exactly one of the two arguments is \<open>None\<close>.
\<close>

theorem embeddings_use_key_or_token_provider:
  assumes "cell5 dotenv env = Inr cfg"
  shows "(load_dotenv dotenv env ''AZURE_OPENAI_KEY'' = Some [] \<longrightarrow>
            map_of (kwargs_of (cell7 cfg)) ''api_key'' = Some PNone
          \<and> map_of (kwargs_of (cell7 cfg)) ''azure_ad_token_provider'' =
              Some (get_bearer_token_provider DefaultAzureCredential
                      ''https://cognitiveservices.azure.com/.default''))
    \<and> (\<forall>key. key \<noteq> [] \<and> load_dotenv dotenv env ''AZURE_OPENAI_KEY'' = Some key \<longrightarrow>
            map_of (kwargs_of (cell7 cfg)) ''api_key'' = Some (PStr key)
          \<and> map_of (kwargs_of (cell7 cfg)) ''azure_ad_token_provider'' = Some PNone)
    \<and> ((map_of (kwargs_of (cell7 cfg)) ''api_key'' = Some PNone)
         \<noteq> (map_of (kwargs_of (cell7 cfg)) ''azure_ad_token_provider'' = Some PNone))"
proof -
  from cell5_Inr[OF assms] obtain ok where
    ok: "load_dotenv dotenv env ''AZURE_OPENAI_KEY'' = Some ok"
    and k: "azure_openai_key cfg = (if ok = [] then PNone else PStr ok)"
    by auto
  have kw: "map_of (kwargs_of (cell7 cfg)) ''api_key'' = Some (azure_openai_key cfg)"
    "map_of (kwargs_of (cell7 cfg)) ''azure_ad_token_provider'' =
       Some (if \<not> truthy (azure_openai_key cfg)
             then get_bearer_token_provider DefaultAzureCredential
                    ''https://cognitiveservices.azure.com/.default''
             else PNone)"
    by (simp_all add: cell7_def Let_def AzureOpenAIEmbeddings_def)
  show ?thesis
  proof (cases "ok = []")
    case True
    with ok k kw show ?thesis by (auto simp: get_bearer_token_provider_def)
  next
    case False
    with ok k kw show ?thesis by simp
  qed
qed

text \<open>The two cases, at the environment with empty keys and at the one with both keys given.\<close>

theorem embeddings_use_key_or_token_provider_witness:
  "cell5 Map.empty env_full = Inr cfg_full
   \<and> load_dotenv Map.empty env_full ''AZURE_OPENAI_KEY'' = Some []
   \<and> map_of (kwargs_of (cell7 cfg_full)) ''api_key'' = Some PNone
   \<and> map_of (kwargs_of (cell7 cfg_full)) ''azure_ad_token_provider'' =
       Some (get_bearer_token_provider DefaultAzureCredential
               ''https://cognitiveservices.azure.com/.default'')
   \<and> cell5 Map.empty env_keys =
       Inr (cfg_full\<lparr>key_credential := PStr ''admin'', azure_openai_key := PStr ''secret'',
                      credential := PStr ''admin''\<rparr>)
   \<and> load_dotenv Map.empty env_keys ''AZURE_OPENAI_KEY'' = Some ''secret''
   \<and> map_of (kwargs_of (cell7 (cfg_full\<lparr>key_credential := PStr ''admin'',
        azure_openai_key := PStr ''secret'', credential := PStr ''admin''\<rparr>))) ''api_key'' =
       Some (PStr ''secret'')
   \<and> map_of (kwargs_of (cell7 (cfg_full\<lparr>key_credential := PStr ''admin'',
        azure_openai_key := PStr ''secret'', credential := PStr ''admin''\<rparr>)))
        ''azure_ad_token_provider'' = Some PNone"
proof -
  have a: "load_dotenv Map.empty env_full ''AZURE_OPENAI_KEY'' = Some []"
    by (simp add: env_defs)
  have b: "cell5 Map.empty env_keys =
       Inr (cfg_full\<lparr>key_credential := PStr ''admin'', azure_openai_key := PStr ''secret'',
                      credential := PStr ''admin''\<rparr>)"
    by (simp add: cell5_def env_defs environ_get_def environ_get_or_None_def cfg_full_def)
  have c: "load_dotenv Map.empty env_keys ''AZURE_OPENAI_KEY'' = Some ''secret''"
    by (simp add: env_defs)
  have d: "''secret'' \<noteq> []" by simp
  from embeddings_use_key_or_token_provider[OF cell5_env_full] a
  have 1: "map_of (kwargs_of (cell7 cfg_full)) ''api_key'' = Some PNone
   \<and> map_of (kwargs_of (cell7 cfg_full)) ''azure_ad_token_provider'' =
       Some (get_bearer_token_provider DefaultAzureCredential
               ''https://cognitiveservices.azure.com/.default'')" by blast
  from embeddings_use_key_or_token_provider[OF b] c d
  have 2: "map_of (kwargs_of (cell7 (cfg_full\<lparr>key_credential := PStr ''admin'',
        azure_openai_key := PStr ''secret'', credential := PStr ''admin''\<rparr>))) ''api_key'' =
       Some (PStr ''secret'')
   \<and> map_of (kwargs_of (cell7 (cfg_full\<lparr>key_credential := PStr ''admin'',
        azure_openai_key := PStr ''secret'', credential := PStr ''admin''\<rparr>)))
        ''azure_ad_token_provider'' = Some PNone" by blast
  from cell5_env_full a b c 1 2 show ?thesis by blast
qed

subsection \<open>Loading the files\<close>

lemmas lib_defs = L_demo_def L_fail_def L_retry_def demo_doc_def demo_docs_def demo_scored_def

lemma cell10_demo:
  "fst (cell10 L_demo (init 0)) = Inr 6"
  "calls (snd (cell10 L_demo (init 0))) =
     file_events files
       [[demo_doc ''../../../../data/benefitdocs/Benefit_Options.pdf'' ''first'',
         demo_doc ''../../../../data/benefitdocs/Benefit_Options.pdf'' ''second''],
        [demo_doc ''../../../../data/benefitdocs/Northwind_Health_Plus_Benefits_Details.pdf'' ''first'',
         demo_doc ''../../../../data/benefitdocs/Northwind_Health_Plus_Benefits_Details.pdf'' ''second''],
        [demo_doc ''../../../../data/benefitdocs/Northwind_Standard_Benefits_Details.pdf'' ''first'',
         demo_doc ''../../../../data/benefitdocs/Northwind_Standard_Benefits_Details.pdf'' ''second'']]
       [[''id'', ''id''], [''id'', ''id''], [''id'', ''id'']]"
  by (simp_all add: cell10_def files_def cellm_defs init_def L_demo_def Let_def
      directory_def os_path_join_def path_step_def)

text \<open>
  C5: when cell 10 completes, it has made, for each of the three files in turn, one
  \<open>load_and_split\<close> call with the splitter of window 1000 and overlap 0 and one
  \<open>add_documents\<close> call with the chunks of that file; the total it reports in its last
  line, \<open>Indexed n chunks\<close>, is the sum over the files of the number of identifiers
  that \<open>add_documents\<close> returned; and the cell, run again from the same state with the
  same answers of the libraries, reports the same total.
\<close>

theorem reported_total_is_sum_of_file_counts:
  assumes "cell10 L s = (Inr total_chunks, s')"
  shows "(\<exists>cs rs. length cs = length files \<and> length rs = length files
            \<and> calls s' = calls s @ file_events files cs rs
            \<and> total_chunks = sum_list (map (\<lambda>results. int (length results)) rs))
    \<and> last (stdout s') = [Lit ''Indexed '', Fmt (PInt total_chunks), Lit '' chunks'']
    \<and> splitter = PCall ''RecursiveCharacterTextSplitter'' []
                    [(''chunk_size'', PInt 1000), (''chunk_overlap'', PInt 0)]
    \<and> (\<forall>n s2. cell10 L s = (Inr n, s2) \<longrightarrow> n = total_chunks)"
proof -
  from cell10_Inr[OF assms] have
    "(\<exists>cs rs. length cs = length files \<and> length rs = length files
            \<and> calls s' = calls s @ file_events files cs rs
            \<and> total_chunks = sum_list (map (\<lambda>results. int (length results)) rs))"
    and "last (stdout s') = [Lit ''Indexed '', Fmt (PInt total_chunks), Lit '' chunks'']"
    by blast+
  moreover have "splitter = PCall ''RecursiveCharacterTextSplitter'' []
                    [(''chunk_size'', PInt 1000), (''chunk_overlap'', PInt 0)]"
    by (simp add: splitter_def RecursiveCharacterTextSplitter_def)
  moreover have "\<forall>n s2. cell10 L s = (Inr n, s2) \<longrightarrow> n = total_chunks"
    using assms by simp
  ultimately show ?thesis by blast
qed

text \<open>With two chunks written for each of the three files, the cell reports six.\<close>

theorem reported_total_is_sum_of_file_counts_witness:
  "fst (cell10 L_demo (init 0)) = Inr 6
   \<and> (\<exists>cs rs. length cs = length files \<and> length rs = length files
         \<and> calls (snd (cell10 L_demo (init 0))) = calls (init (0::nat)) @ file_events files cs rs
         \<and> (6::int) = sum_list (map (\<lambda>results. int (length results)) rs))
   \<and> last (stdout (snd (cell10 L_demo (init 0)))) = [Lit ''Indexed '', Fmt (PInt 6), Lit '' chunks'']"
proof -
  have h: "cell10 L_demo (init 0) = (Inr 6, snd (cell10 L_demo (init 0)))"
    using cell10_demo(1) by (metis prod.collapse)
  from reported_total_is_sum_of_file_counts[OF h] cell10_demo(1) show ?thesis by blast
qed

subsection \<open>The queries\<close>

lemma cell12_demo:
  "fst (cell12 L_demo (init 0)) =
     Inr [demo_doc ''a.pdf'' ''one'', demo_doc ''b.pdf'' ''two'', demo_doc ''a.pdf'' ''three'']"
  "calls (snd (cell12 L_demo (init 0))) =
     [(Similarity_search query 50 ''similarity'',
       Inr (RDocs [demo_doc ''a.pdf'' ''one'', demo_doc ''b.pdf'' ''two'',
                   demo_doc ''a.pdf'' ''three'', demo_doc ''c.pdf'' ''four'']))]"
  by (simp_all add: cell12_def search_cell_def cellm_defs init_def lib_defs dict_subscript_def)

lemma cell14_demo:
  "fst (cell14 L_demo (init 0)) =
     Inr [demo_doc ''a.pdf'' ''one'', demo_doc ''b.pdf'' ''two'', demo_doc ''a.pdf'' ''three'']"
  by (simp_all add: cell14_def search_cell_def cellm_defs init_def lib_defs dict_subscript_def)

lemma cell16_demo:
  "fst (cell16 L_demo (init 0)) = Inr (take 3 demo_scored)"
  by (simp add: cell16_def cellm_defs init_def lib_defs dict_subscript_def
      print_highlight_def Let_def)

text \<open>
  C4, as stated, at libraries whose vector search returns four results: cell 12 asks
  for up to 50 results, receives four, and goes on with the first three only
  (\<open>docs = docs[:3]\<close>), which is not the sequence the service produced.
\<close>

theorem query_cell_drops_results:
  "map snd (calls (snd (cell12 L_demo (init 0)))) =
     [Inr (RDocs [demo_doc ''a.pdf'' ''one'', demo_doc ''b.pdf'' ''two'',
                  demo_doc ''a.pdf'' ''three'', demo_doc ''c.pdf'' ''four''])]
   \<and> fst (cell12 L_demo (init 0)) =
     Inr [demo_doc ''a.pdf'' ''one'', demo_doc ''b.pdf'' ''two'', demo_doc ''a.pdf'' ''three'']
   \<and> [demo_doc ''a.pdf'' ''one'', demo_doc ''b.pdf'' ''two'', demo_doc ''a.pdf'' ''three'']
     \<noteq> [demo_doc ''a.pdf'' ''one'', demo_doc ''b.pdf'' ''two'',
         demo_doc ''a.pdf'' ''three'', demo_doc ''c.pdf'' ''four'']"
  by (simp add: cell12_demo)

text \<open>
  C4, amended: each of the three query cells, when it completes, has made exactly one
  call into the vector store, with the free-text query and the result-count bound 50
  (and the search type \<open>similarity\<close> or \<open>hybrid\<close> for the first two), and goes on with the
  first three results of the sequence that call returned, in the order returned. The
  cell does not rank or fuse; it truncates.
\<close>

theorem query_cells_keep_first_three:
  "(cell12 L s = (Inr docs, s') \<longrightarrow>
      (\<exists>all. calls s' = calls s @ [(Similarity_search query 50 ''similarity'', Inr (RDocs all))]
            \<and> docs = take 3 all))
   \<and> (cell14 L s = (Inr docs, s') \<longrightarrow>
      (\<exists>all. calls s' = calls s @ [(Similarity_search query 50 ''hybrid'', Inr (RDocs all))]
            \<and> docs = take 3 all))
   \<and> (cell16 L s = (Inr docs_and_scores, s') \<longrightarrow>
      (\<exists>all. calls s' = calls s @ [(Semantic_hybrid_search_with_score query 50, Inr (RScored all))]
            \<and> docs_and_scores = take 3 all))"
  using search_cell_Inr[of L "''similarity''" s docs s'] search_cell_Inr[of L "''hybrid''" s docs s']
    cell16_Inr[of L s docs_and_scores s']
  by (simp add: cell12_def cell14_def)

text \<open>The three cells at libraries whose searches return four results.\<close>

theorem query_cells_keep_first_three_witness:
  "fst (cell12 L_demo (init 0)) = Inr (take 3 demo_docs)
   \<and> (\<exists>all. calls (snd (cell12 L_demo (init 0))) =
          calls (init (0::nat)) @ [(Similarity_search query 50 ''similarity'', Inr (RDocs all))]
        \<and> take 3 demo_docs = take 3 all)
   \<and> fst (cell14 L_demo (init 0)) = Inr (take 3 demo_docs)
   \<and> (\<exists>all. calls (snd (cell14 L_demo (init 0))) =
          calls (init (0::nat)) @ [(Similarity_search query 50 ''hybrid'', Inr (RDocs all))]
        \<and> take 3 demo_docs = take 3 all)
   \<and> fst (cell16 L_demo (init 0)) = Inr (take 3 demo_scored)
   \<and> (\<exists>all. calls (snd (cell16 L_demo (init 0))) =
          calls (init (0::nat)) @ [(Semantic_hybrid_search_with_score query 50, Inr (RScored all))]
        \<and> take 3 demo_scored = take 3 all)"
proof -
  have a: "fst (cell12 L_demo (init 0)) = Inr (take 3 demo_docs)"
    using cell12_demo(1) by (simp add: demo_docs_def)
  have b: "fst (cell14 L_demo (init 0)) = Inr (take 3 demo_docs)"
    using cell14_demo by (simp add: demo_docs_def)
  note c = cell16_demo
  have a': "cell12 L_demo (init 0) = (Inr (take 3 demo_docs), snd (cell12 L_demo (init 0)))"
    using a by (metis prod.collapse)
  have b': "cell14 L_demo (init 0) = (Inr (take 3 demo_docs), snd (cell14 L_demo (init 0)))"
    using b by (metis prod.collapse)
  have c': "cell16 L_demo (init 0) = (Inr (take 3 demo_scored), snd (cell16 L_demo (init 0)))"
    using c by (metis prod.collapse)
  from query_cells_keep_first_three[of L_demo "init 0" "take 3 demo_docs" "snd (cell12 L_demo (init 0))"] a'
  have 1: "\<exists>all. calls (snd (cell12 L_demo (init 0))) =
          calls (init (0::nat)) @ [(Similarity_search query 50 ''similarity'', Inr (RDocs all))]
        \<and> take 3 demo_docs = take 3 all" by blast
  from query_cells_keep_first_three[of L_demo "init 0" "take 3 demo_docs" "snd (cell14 L_demo (init 0))"] b'
  have 2: "\<exists>all. calls (snd (cell14 L_demo (init 0))) =
          calls (init (0::nat)) @ [(Similarity_search query 50 ''hybrid'', Inr (RDocs all))]
        \<and> take 3 demo_docs = take 3 all" by blast
  from query_cells_keep_first_three[of L_demo "init 0" _ "snd (cell16 L_demo (init 0))" "take 3 demo_scored"] c'
  have 3: "\<exists>all. calls (snd (cell16 L_demo (init 0))) =
          calls (init (0::nat)) @ [(Semantic_hybrid_search_with_score query 50, Inr (RScored all))]
        \<and> take 3 demo_scored = take 3 all" by blast
  from a b c 1 2 3 show ?thesis by blast
qed

subsection \<open>Failures\<close>






end
